theory Spec2Isabelle
  imports Main
begin

section \<open>Values, errors and maps of the Go program\<close>

text \<open>
  A value of Go's \<^verbatim>\<open>any\<close>: the nil interface, a string, a number, a boolean, or a
  pointer to a value of an attribute type of the entity (type \<open>'t\<close>), which is what
  \<^verbatim>\<open>reflect.New(t).Interface()\<close> yields.
\<close>

datatype 't any = ANil | AString string | AInt int | ABool bool | APtr 't

text \<open>
  A Go \<^verbatim>\<open>error\<close>: a plain message, or the result of \<^verbatim>\<open>fmt.Errorf\<close> with the verb
  \<^verbatim>\<open>%w\<close>, which carries the formatted message and the wrapped error. A nil error
  is \<open>None\<close> of \<open>error option\<close>.
\<close>

datatype error = ErrorString string | WrapError string error

fun Error :: "error \<Rightarrow> string" where
  "Error (ErrorString msg) = msg"
| "Error (WrapError msg inner) = msg"

text \<open>
  What ends a call without a result: \<^verbatim>\<open>logrus.Fatalf\<close> logs the message and exits the
  process, and a panic of the Go runtime or of package \<^verbatim>\<open>reflect\<close> unwinds the call.
\<close>

datatype fatal = Fatal string | Panic string

text \<open>
  Indexing a Go map of \<^verbatim>\<open>any\<close> with a missing key gives the zero value, nil.
  A map that is only indexed or built is a HOL map; a map that the code ranges over is
  an association list with the entries in the order of that iteration, which Go leaves
  unspecified: a statement about every list is a statement about every order.
\<close>

definition index :: "(string \<rightharpoonup> 't any) \<Rightarrow> string \<Rightarrow> 't any" where
  "index m k = (case m k of None \<Rightarrow> ANil | Some v \<Rightarrow> v)"

text \<open>\<^verbatim>\<open>strings.Join\<close>.\<close>

fun Join :: "string list \<Rightarrow> string \<Rightarrow> string" where
  "Join [] sep = []"
| "Join [x] sep = x"
| "Join (x # y # ys) sep = x @ sep @ Join (y # ys) sep"

section \<open>Conversion functions and fields\<close>

type_synonym 't ConvertFunc = "'t any \<Rightarrow> 't any \<times> error option"

text \<open>
  Modelled from the spec: \<^verbatim>\<open>types.ConvertPassThrough\<close> is not among the sources; it is
  the identity pass-through conversion of section 4.3, step 4.
\<close>

definition ConvertPassThrough :: "'t ConvertFunc" where
  "ConvertPassThrough v = (v, None)"

type_synonym ('t, 'c) FieldFunc =
  "(string \<rightharpoonup> 't any) \<Rightarrow> string \<Rightarrow> 'c \<Rightarrow> 't any \<times> error option"

text \<open>
  Modelled from the spec: package \<^verbatim>\<open>fields\<close> is not among the sources. A field has a
  name, the two policy flags, which default to true, and the three conversion functions
  of section 3; each function receives the whole map, the field's name and the request
  context (type \<open>'c\<close>). The methods \<^verbatim>\<open>ToRepresentation\<close>, \<^verbatim>\<open>ToInternalValue\<close> and
  \<^verbatim>\<open>FromDB\<close> call the stored function with the field's own name.
\<close>

record ('t, 'c) Field =
  Name :: string
  Readable :: bool
  Writable :: bool
  RepresentationFunc :: "('t, 'c) FieldFunc"
  InternalValueFunc :: "('t, 'c) FieldFunc"
  FromDBFunc :: "('t, 'c) FieldFunc"

definition Field_ToRepresentation ::
  "('t, 'c) Field \<Rightarrow> (string \<rightharpoonup> 't any) \<Rightarrow> 'c \<Rightarrow> 't any \<times> error option" where
  "Field_ToRepresentation f intVal ctx = RepresentationFunc f intVal (Name f) ctx"

definition Field_ToInternalValue ::
  "('t, 'c) Field \<Rightarrow> (string \<rightharpoonup> 't any) \<Rightarrow> 'c \<Rightarrow> 't any \<times> error option" where
  "Field_ToInternalValue f reprModel ctx = InternalValueFunc f reprModel (Name f) ctx"

definition Field_FromDB ::
  "('t, 'c) Field \<Rightarrow> (string \<rightharpoonup> 't any) \<Rightarrow> 'c \<Rightarrow> 't any \<times> error option" where
  "Field_FromDB f row ctx = FromDBFunc f row (Name f) ctx"

text \<open>The adapters of \<^verbatim>\<open>model.go\<close>, lines 166 to 176.\<close>

definition ConvertFuncToRepresentationFuncAdapter :: "'t ConvertFunc \<Rightarrow> ('t, 'c) FieldFunc" where
  "ConvertFuncToRepresentationFuncAdapter cf = (\<lambda>intVal name ctx. cf (index intVal name))"

definition ConvertFuncToInternalValueFuncAdapter :: "'t ConvertFunc \<Rightarrow> ('t, 'c) FieldFunc" where
  "ConvertFuncToInternalValueFuncAdapter cf = (\<lambda>reprModel name ctx. cf (index reprModel name))"

text \<open>
  Modelled from the spec: the constructor and the two setters of package \<^verbatim>\<open>fields\<close>.
  A new field is readable and writable, and until a setter replaces them its functions
  are the pass-through of its own entry.
\<close>

definition NewField :: "string \<Rightarrow> ('t, 'c) Field" where
  "NewField name =
     \<lparr> Name = name, Readable = True, Writable = True,
       RepresentationFunc = ConvertFuncToRepresentationFuncAdapter ConvertPassThrough,
       InternalValueFunc = ConvertFuncToInternalValueFuncAdapter ConvertPassThrough,
       FromDBFunc = ConvertFuncToInternalValueFuncAdapter ConvertPassThrough \<rparr>"

definition WithRepresentationFunc :: "('t, 'c) FieldFunc \<Rightarrow> ('t, 'c) Field \<Rightarrow> ('t, 'c) Field" where
  "WithRepresentationFunc g f = f\<lparr>RepresentationFunc := g\<rparr>"

definition WithInternalValueFunc :: "('t, 'c) FieldFunc \<Rightarrow> ('t, 'c) Field \<Rightarrow> ('t, 'c) Field" where
  "WithInternalValueFunc g f = f\<lparr>InternalValueFunc := g\<rparr>"

section \<open>The serializer\<close>

text \<open>
  \<^verbatim>\<open>ModelSerializer.Fields\<close> is ranged over and indexed, so it is an association
  list, indexed with \<open>map_of\<close>.
\<close>

type_synonym ('t, 'c) Fields = "(string \<times> ('t, 'c) Field) list"

text \<open>
  Modelled from the spec: \<^verbatim>\<open>types.FieldTypeMapper\<close> is not among the sources. It is the
  type-to-converter mapping table of section 4.3, step 2, keyed by the name of the type;
  a lookup gives a conversion function or an error.
\<close>

record 't FieldTypeMapper =
  Mapper_ToRepresentation :: "string \<Rightarrow> 't ConvertFunc \<times> error option"
  Mapper_ToInternalValue :: "string \<Rightarrow> 't ConvertFunc \<times> error option"

record ('t, 'c) ModelSerializer =
  Fields :: "('t, 'c) Fields"
  FieldTypeMapper :: "'t FieldTypeMapper"

datatype ValidationError = ValidationError (FieldErrors: "string \<rightharpoonup> string list")

definition not_accepted :: "string \<Rightarrow> string list \<Rightarrow> string" where
  "not_accepted field existingFields =
     ''Field `'' @ field @ ''` is not accepted by this endpoint, accepted fields: ''
       @ Join existingFields '', ''"

text \<open>
  The first loop of \<^verbatim>\<open>ToInternalValue\<close> (lines 24 to 38) over the keys of \<open>raw\<close> in
  iteration order, with the two accumulators \<open>intVMap\<close> and \<open>superfluousFields\<close>.
\<close>

fun ToInternalValue_range ::
  "('t, 'c) Fields \<Rightarrow> (string \<rightharpoonup> 't any) \<Rightarrow> 'c \<Rightarrow> string list \<Rightarrow>
   (string \<rightharpoonup> 't any) \<Rightarrow> string list \<Rightarrow>
   ValidationError + ((string \<rightharpoonup> 't any) \<times> string list)" where
  "ToInternalValue_range fs raw ctx [] intVMap superfluousFields =
     Inr (intVMap, superfluousFields)"
| "ToInternalValue_range fs raw ctx (k # ks) intVMap superfluousFields =
     (case map_of fs k of
        None \<Rightarrow> ToInternalValue_range fs raw ctx ks intVMap (superfluousFields @ [k])
      | Some field \<Rightarrow>
          if \<not> Writable field then ToInternalValue_range fs raw ctx ks intVMap superfluousFields
          else (case Field_ToInternalValue field raw ctx of
                  (intV, Some err) \<Rightarrow> Inl (ValidationError [k \<mapsto> [Error err]])
                | (intV, None) \<Rightarrow>
                    ToInternalValue_range fs raw ctx ks (intVMap(k \<mapsto> intV)) superfluousFields))"

definition ToInternalValue ::
  "('t, 'c) ModelSerializer \<Rightarrow> (string \<times> 't any) list \<Rightarrow> 'c \<Rightarrow>
   ValidationError + (string \<rightharpoonup> 't any)" where
  "ToInternalValue s raw ctx =
     (case ToInternalValue_range (Fields s) (map_of raw) ctx (map fst raw) Map.empty [] of
        Inl e \<Rightarrow> Inl e
      | Inr (intVMap, superfluousFields) \<Rightarrow>
          if length superfluousFields > 0 then
            (let existingFields = map (\<lambda>(k, field). Name field) (Fields s);
                 errMap = fold (\<lambda>field m. m(field \<mapsto> [not_accepted field existingFields]))
                            superfluousFields Map.empty
             in Inl (ValidationError errMap))
          else Inr intVMap)"

text \<open>\<^verbatim>\<open>ToRepresentation\<close> (lines 53 to 69): the loop over the registered fields.\<close>

definition serialize_failed :: "string \<Rightarrow> error \<Rightarrow> error" where
  "serialize_failed name err =
     WrapError (''Failed to serialize field `'' @ name @ ''` to representation: '' @ Error err) err"

fun ToRepresentation_range ::
  "('t, 'c) Fields \<Rightarrow> (string \<rightharpoonup> 't any) \<Rightarrow> 'c \<Rightarrow> (string \<rightharpoonup> 't any) \<Rightarrow>
   error + (string \<rightharpoonup> 't any)" where
  "ToRepresentation_range [] intVal ctx raw = Inr raw"
| "ToRepresentation_range ((k, field) # fs) intVal ctx raw =
     (if \<not> Readable field then ToRepresentation_range fs intVal ctx raw
      else (case Field_ToRepresentation field intVal ctx of
              (v, Some err) \<Rightarrow> Inl (serialize_failed (Name field) err)
            | (v, None) \<Rightarrow> ToRepresentation_range fs intVal ctx (raw(Name field \<mapsto> v))))"

definition ToRepresentation ::
  "('t, 'c) ModelSerializer \<Rightarrow> (string \<rightharpoonup> 't any) \<Rightarrow> 'c \<Rightarrow> error + (string \<rightharpoonup> 't any)" where
  "ToRepresentation s intVal ctx = ToRepresentation_range (Fields s) intVal ctx Map.empty"

section \<open>Reflection over the entity type\<close>

text \<open>
  What the code reads from \<^verbatim>\<open>reflect\<close> about a type: its printed name, whether it is an
  interface type (the zero value of such an attribute is the nil interface, which has no
  dynamic type), the value a fresh pointer made by \<^verbatim>\<open>reflect.New\<close> points to, and which
  of the four interfaces the pointer type implements. The two methods of the text
  interfaces are those of the type; they are called only where the matching flag holds.
\<close>

record 't rtype =
  TypeString :: string
  IsInterface :: bool
  New :: 't
  implementsTextMarshaler :: bool
  MarshalText :: "'t \<Rightarrow> string \<times> error option"
  implementsTextUnmarshaler :: bool
  UnmarshalText :: "'t \<Rightarrow> string \<Rightarrow> 't \<times> error option"
  implementsGRFRepresentable :: bool
  implementsGRFParsable :: bool

text \<open>
  An entry of \<^verbatim>\<open>reflect.VisibleFields\<close>, with the value of its \<^verbatim>\<open>json\<close> tag, and what
  decides whether its value in the zero entity can be read: whether the attribute is
  exported, and whether it is promoted from an embedded pointer, which is nil in the zero
  entity.
\<close>

record 't StructField =
  FieldName :: string
  Tag_json :: string
  Anonymous :: bool
  Exported :: bool
  BehindNilPointer :: bool
  FieldType :: "'t rtype"

text \<open>The type parameter \<^verbatim>\<open>Model\<close>: the printed name of the type and its visible fields.\<close>

record 't Model =
  ModelString :: string
  VisibleFields :: "'t StructField list"

record 't fieldSettings =
  itsType :: "'t rtype"
  isEncodingTextMarshaler :: bool
  isEncodingTextUnmarshaler :: bool
  isGRFRepresentable :: bool
  isGRFParsable :: bool

text \<open>
  \<^verbatim>\<open>getFieldSettings\<close> (lines 242 to 273). The loop visits every visible field and keeps
  the settings of the last one whose tag is the name asked for; \<open>None\<close> is the nil
  pointer. For a field with that tag, line 249 reads the value of the attribute in the zero
  entity: \<^verbatim>\<open>FieldByName\<close> panics on the way through a nil embedded pointer,
  \<^verbatim>\<open>Interface\<close> panics for an attribute that is not exported, and \<^verbatim>\<open>reflect.New\<close> panics
  for the nil type of an attribute of interface type.
\<close>

fun getFieldSettings_range ::
  "'t StructField list \<Rightarrow> string \<Rightarrow> 't fieldSettings option \<Rightarrow> fatal + 't fieldSettings option" where
  "getFieldSettings_range [] fieldName settings = Inr settings"
| "getFieldSettings_range (field # rest) fieldName settings =
     (if Tag_json field = fieldName then
        (if BehindNilPointer field then
           Inl (Panic ''reflect: indirection through nil pointer to embedded struct'')
         else if \<not> Exported field then
           Inl (Panic ''reflect.Value.Interface: cannot return value obtained from unexported field or method'')
         else if IsInterface (FieldType field) then
           Inl (Panic ''reflect: New(nil)'')
         else
           getFieldSettings_range rest fieldName
             (Some \<lparr> itsType = FieldType field,
                     isEncodingTextMarshaler = implementsTextMarshaler (FieldType field),
                     isEncodingTextUnmarshaler = implementsTextUnmarshaler (FieldType field),
                     isGRFRepresentable = implementsGRFRepresentable (FieldType field),
                     isGRFParsable = implementsGRFParsable (FieldType field) \<rparr>))
      else getFieldSettings_range rest fieldName settings)"

definition getFieldSettings :: "'t Model \<Rightarrow> string \<Rightarrow> fatal + 't fieldSettings option" where
  "getFieldSettings entity fieldName = getFieldSettings_range (VisibleFields entity) fieldName None"

definition could_not_find :: "string \<Rightarrow> string \<Rightarrow> string" where
  "could_not_find fieldName model =
     ''Could not find field `'' @ fieldName @ ''` on model `'' @ model @ ''`''"

text \<open>
  \<^verbatim>\<open>DecodeFromStringOrPassthrough\<close> (lines 190 to 211). The settings are looked up once;
  a panic of the lookup ends the call, and a missing field ends the process. The function
  returned asserts its argument to be a string; for a string and a type with
  \<^verbatim>\<open>UnmarshalText\<close> it unmarshals into a fresh value and returns the pointer together
  with the error of the unmarshalling.
\<close>

definition DecodeFromStringOrPassthrough :: "'t Model \<Rightarrow> string \<Rightarrow> fatal + 't ConvertFunc" where
  "DecodeFromStringOrPassthrough entity fieldName =
     (case getFieldSettings entity fieldName of
        Inl panic \<Rightarrow> Inl panic
      | Inr None \<Rightarrow> Inl (Fatal (could_not_find fieldName (ModelString entity)))
      | Inr (Some settings) \<Rightarrow>
          Inr (\<lambda>v. case v of
                 AString vStr \<Rightarrow>
                   if isEncodingTextUnmarshaler settings then
                     (case UnmarshalText (itsType settings) (New (itsType settings)) vStr of
                        (fv, unmarshalErr) \<Rightarrow> (APtr fv, unmarshalErr))
                   else ConvertPassThrough v
               | _ \<Rightarrow> ConvertPassThrough v))"

text \<open>
  \<^verbatim>\<open>WithField\<close> (lines 97 to 105). The registry holds pointers, so the update function
  changes the field in place under its key. The result is the serializer when the
  function returns or the process ends, and the fatal message in the second case.
\<close>

definition WithField ::
  "'t Model \<Rightarrow> string \<Rightarrow> (('t, 'c) Field \<Rightarrow> ('t, 'c) Field) \<Rightarrow> ('t, 'c) ModelSerializer \<Rightarrow>
   ('t, 'c) ModelSerializer \<times> fatal option" where
  "WithField m name updateFunc s =
     (case map_of (Fields s) name of
        None \<Rightarrow>
          (s, Some (Fatal (could_not_find name (ModelString m)
                           @ '' when registering serializer field'')))
      | Some v \<Rightarrow>
          (s\<lparr>Fields := map (\<lambda>(k, field). (k, if k = name then updateFunc field else field))
                          (Fields s)\<rparr>,
           None))"

text \<open>
  The assignment \<^verbatim>\<open>m[k] = v\<close> to a Go map: the value under an existing key is replaced,
  a new key gets a new entry.
\<close>

definition store :: "string \<Rightarrow> 'v \<Rightarrow> (string \<times> 'v) list \<Rightarrow> (string \<times> 'v) list" where
  "store k v m =
     (if k \<in> fst ` set m then map (\<lambda>(k', v'). (k', if k' = k then v else v')) m
      else m @ [(k, v)])"

text \<open>\<^verbatim>\<open>WithNewField\<close> (lines 92 to 95): the field is stored under its own name.\<close>

definition WithNewField ::
  "('t, 'c) Field \<Rightarrow> ('t, 'c) ModelSerializer \<Rightarrow> ('t, 'c) ModelSerializer" where
  "WithNewField field s = s\<lparr>Fields := store (Name field) field (Fields s)\<rparr>"

section \<open>Registration of the fields of a model\<close>

text \<open>
  A detector answers a field name with a function and an error, as the Go methods
  \<^verbatim>\<open>ToRepresentation(fieldName)\<close> and \<^verbatim>\<open>ToInternalValue(fieldName)\<close> of the detector
  interfaces do; no error means that a conversion was detected.
\<close>

type_synonym ('t, 'c) Detector = "string \<Rightarrow> ('t, 'c) FieldFunc \<times> error option"

text \<open>
  The six providers that \<^verbatim>\<open>WithModelFields\<close> constructs (lines 109 to 119) are declared
  outside the sources; their constructors are parameters of the model, under the names
  the code calls them by.
\<close>

record ('t, 'c) Providers =
  NewUsingGRFRepresentableToRepresentationProvider :: "'t Model \<Rightarrow> ('t, 'c) Detector"
  NewFromTypeMapperToRepresentationProvider :: "'t Model \<Rightarrow> 't FieldTypeMapper \<Rightarrow> ('t, 'c) Detector"
  NewEncodingTextMarshalerToRepresentationProvider :: "'t Model \<Rightarrow> ('t, 'c) Detector"
  NewUsingGRFParsableToInternalValueProvider :: "'t Model \<Rightarrow> ('t, 'c) Detector"
  NewFromTypeMapperToInternalValueProvider :: "'t Model \<Rightarrow> 't FieldTypeMapper \<Rightarrow> ('t, 'c) Detector"
  NewEncodingTextUnmarshalerToInternalValueProvider :: "'t Model \<Rightarrow> ('t, 'c) Detector"

text \<open>
  Modelled from the spec: the chaining detectors are not among the sources. By section 3
  the providers are tried in a fixed priority order and the first match wins; if none
  matches, the pass-through conversion is used; a failure during detection is logged,
  not fatal. A chaining detector therefore asks its children in the order given, logs
  the error of each child that fails, returns the function of the first child that
  detects a conversion, and the pass-through if there is none; it reports no error. Beside
  function and error it returns the lines it has logged.
\<close>

type_synonym ('t, 'c) ChainingDetector =
  "string \<Rightarrow> (('t, 'c) FieldFunc \<times> error option) \<times> string list"

fun chaining ::
  "('t, 'c) Detector list \<Rightarrow> ('t, 'c) FieldFunc \<Rightarrow> string \<Rightarrow> string list \<Rightarrow>
   (('t, 'c) FieldFunc \<times> error option) \<times> string list" where
  "chaining [] passThrough fieldName logs = ((passThrough, None), logs)"
| "chaining (child # children) passThrough fieldName logs =
     (case child fieldName of
        (detectedFunc, None) \<Rightarrow> ((detectedFunc, None), logs)
      | (detectedFunc, Some err) \<Rightarrow> chaining children passThrough fieldName (logs @ [Error err]))"

definition NewChainingToRepresentationDetector ::
  "('t, 'c) Detector list \<Rightarrow> ('t, 'c) ChainingDetector" where
  "NewChainingToRepresentationDetector children =
     (\<lambda>fieldName.
        chaining children (ConvertFuncToRepresentationFuncAdapter ConvertPassThrough) fieldName [])"

definition NewChainingToInternalValueDetector ::
  "('t, 'c) Detector list \<Rightarrow> ('t, 'c) ChainingDetector" where
  "NewChainingToInternalValueDetector children =
     (\<lambda>fieldName.
        chaining children (ConvertFuncToInternalValueFuncAdapter ConvertPassThrough) fieldName [])"

definition failed_to_register :: "'t Model \<Rightarrow> error \<Rightarrow> fatal" where
  "failed_to_register m err =
     Fatal (''WithModelFields: Failed to register model `'' @ ModelString m @ ''` fields: ''
            @ Error err)"

text \<open>
  The loop of \<^verbatim>\<open>WithModelFields\<close> (lines 123 to 140) over the names passed, with the
  registry built so far and the lines logged so far.
\<close>

fun WithModelFields_range ::
  "('t, 'c) ChainingDetector \<Rightarrow> ('t, 'c) ChainingDetector \<Rightarrow> 't Model \<Rightarrow> string list \<Rightarrow>
   ('t, 'c) Fields \<Rightarrow> string list \<Rightarrow> (fatal + ('t, 'c) Fields) \<times> string list" where
  "WithModelFields_range toRepresentationFuncDetector toInternalValueFuncDetector m []
     registered logs = (Inr registered, logs)"
| "WithModelFields_range toRepresentationFuncDetector toInternalValueFuncDetector m (field # rest)
     registered logs =
     (case toRepresentationFuncDetector field of
        ((toRepresentation, Some toRepresentationErr), logs1) \<Rightarrow>
          (Inl (failed_to_register m toRepresentationErr), logs @ logs1)
      | ((toRepresentation, None), logs1) \<Rightarrow>
          (case toInternalValueFuncDetector field of
             ((toInternalValue, Some toInternalValueErr), logs2) \<Rightarrow>
               (Inl (failed_to_register m toInternalValueErr), logs @ logs1 @ logs2)
           | ((toInternalValue, None), logs2) \<Rightarrow>
               WithModelFields_range toRepresentationFuncDetector toInternalValueFuncDetector m rest
                 (store field
                    (WithInternalValueFunc toInternalValue
                       (WithRepresentationFunc toRepresentation (NewField field)))
                    registered)
                 (logs @ logs1 @ logs2)))"

text \<open>
  \<^verbatim>\<open>WithModelFields\<close> (lines 107 to 142): the two chaining detectors are built from the
  providers in the order of lines 109 to 119, the registry is emptied, and the loop runs.
\<close>

definition WithModelFields ::
  "('t, 'c) Providers \<Rightarrow> 't Model \<Rightarrow> string list \<Rightarrow> ('t, 'c) ModelSerializer \<Rightarrow>
   (fatal + ('t, 'c) ModelSerializer) \<times> string list" where
  "WithModelFields P m passedFields s =
     (let toRepresentationFuncDetector =
            NewChainingToRepresentationDetector
              [NewUsingGRFRepresentableToRepresentationProvider P m,
               NewFromTypeMapperToRepresentationProvider P m (FieldTypeMapper s),
               NewEncodingTextMarshalerToRepresentationProvider P m];
          toInternalValueFuncDetector =
            NewChainingToInternalValueDetector
              [NewUsingGRFParsableToInternalValueProvider P m,
               NewFromTypeMapperToInternalValueProvider P m (FieldTypeMapper s),
               NewEncodingTextUnmarshalerToInternalValueProvider P m]
      in case WithModelFields_range toRepresentationFuncDetector toInternalValueFuncDetector m
                passedFields [] [] of
           (Inl f, logs) \<Rightarrow> (Inl f, logs)
         | (Inr registered, logs) \<Rightarrow> (Inr (s\<lparr>Fields := registered\<rparr>), logs))"

section \<open>Notions used to state the properties\<close>

text \<open>
  A key of the input on which the loop of \<^verbatim>\<open>ToInternalValue\<close> returns early: it is
  registered, writable, and its conversion reports an error.
\<close>

definition conversion_fails ::
  "('t, 'c) Fields \<Rightarrow> (string \<rightharpoonup> 't any) \<Rightarrow> 'c \<Rightarrow> string \<Rightarrow> bool" where
  "conversion_fails fs raw ctx k =
     (case map_of fs k of
        None \<Rightarrow> False
      | Some field \<Rightarrow> Writable field \<and> snd (Field_ToInternalValue field raw ctx) \<noteq> None)"

definition conversion_error ::
  "('t, 'c) Fields \<Rightarrow> (string \<rightharpoonup> 't any) \<Rightarrow> 'c \<Rightarrow> string \<Rightarrow> string" where
  "conversion_error fs raw ctx k =
     (case map_of fs k of
        None \<Rightarrow> []
      | Some field \<Rightarrow>
          (case snd (Field_ToInternalValue field raw ctx) of None \<Rightarrow> [] | Some err \<Rightarrow> Error err))"

definition unknown_keys :: "('t, 'c) Fields \<Rightarrow> string list \<Rightarrow> string list" where
  "unknown_keys fs ks = filter (\<lambda>k. map_of fs k = None) ks"

text \<open>A readable field whose conversion to the representation reports an error.\<close>

definition representation_fails ::
  "(string \<rightharpoonup> 't any) \<Rightarrow> 'c \<Rightarrow> string \<times> ('t, 'c) Field \<Rightarrow> bool" where
  "representation_fails intVal ctx kf =
     (Readable (snd kf) \<and> snd (Field_ToRepresentation (snd kf) intVal ctx) \<noteq> None)"

text \<open>
  The serializer in which the field registered under \<open>name\<close> has been given another
  \<^verbatim>\<open>InternalValueFunc\<close>; it serves to say that a result does not depend on that
  function.
\<close>

definition with_InternalValueFunc_at ::
  "string \<Rightarrow> ('t, 'c) FieldFunc \<Rightarrow> ('t, 'c) ModelSerializer \<Rightarrow> ('t, 'c) ModelSerializer" where
  "with_InternalValueFunc_at name g s =
     s\<lparr>Fields := map (\<lambda>(k, field). (k, if k = name then WithInternalValueFunc g field else field))
                    (Fields s)\<rparr>"

text \<open>
  A registry in which every field is registered under its own name, as \<^verbatim>\<open>WithNewField\<close>
  and \<^verbatim>\<open>WithModelFields\<close> register it. The names of its fields are pairwise different.
\<close>

definition registered_by_name :: "('t, 'c) Fields \<Rightarrow> bool" where
  "registered_by_name fs =
     (distinct (map fst fs) \<and> list_all (\<lambda>(k, field). Name field = k) fs)"

section \<open>Example data\<close>

text \<open>
  The entity of the example program, \<^verbatim>\<open>Person\<close> with the attributes \<^verbatim>\<open>id\<close> and
  \<^verbatim>\<open>name\<close>, with attribute values and request contexts of type \<open>unit\<close>.
\<close>

definition no_mapper :: "unit FieldTypeMapper" where
  "no_mapper =
     \<lparr> Mapper_ToRepresentation = (\<lambda>t. (ConvertPassThrough, Some (ErrorString ''no converter''))),
       Mapper_ToInternalValue = (\<lambda>t. (ConvertPassThrough, Some (ErrorString ''no converter''))) \<rparr>"

definition person_serializer :: "(unit, unit) ModelSerializer" where
  "person_serializer =
     \<lparr> Fields = [(''id'', NewField ''id''), (''name'', NewField ''name'')],
       FieldTypeMapper = no_mapper \<rparr>"

text \<open>Two conversions that accept one kind of value and report an error on any other.\<close>

definition number_only :: "unit ConvertFunc" where
  "number_only v = (case v of AInt n \<Rightarrow> (v, None) | _ \<Rightarrow> (ANil, Some (ErrorString ''not a number'')))"

definition string_only :: "unit ConvertFunc" where
  "string_only v = (case v of AString x \<Rightarrow> (v, None) | _ \<Rightarrow> (ANil, Some (ErrorString ''not a string'')))"

definition strict_serializer :: "(unit, unit) ModelSerializer" where
  "strict_serializer =
     \<lparr> Fields =
         [(''id'', WithInternalValueFunc (ConvertFuncToInternalValueFuncAdapter number_only)
                    (NewField ''id'')),
          (''name'', WithInternalValueFunc (ConvertFuncToInternalValueFuncAdapter string_only)
                    (NewField ''name''))],
       FieldTypeMapper = no_mapper \<rparr>"

text \<open>The serializer of \<^verbatim>\<open>Person\<close> with the field \<^verbatim>\<open>id\<close> made read-only.\<close>

definition read_only_id_serializer :: "(unit, unit) ModelSerializer" where
  "read_only_id_serializer =
     \<lparr> Fields = [(''id'', (NewField ''id'')\<lparr>Writable := False\<rparr>), (''name'', NewField ''name'')],
       FieldTypeMapper = no_mapper \<rparr>"

text \<open>
  A registry whose two fields both fail to convert to the wire form, and the serializer
  of \<^verbatim>\<open>Person\<close> with the field \<^verbatim>\<open>id\<close> made write-only.
\<close>

definition failing_repr :: "string \<Rightarrow> (unit, unit) FieldFunc" where
  "failing_repr msg = (\<lambda>intVal name ctx. (ANil, Some (ErrorString msg)))"

definition broken_serializer :: "(unit, unit) ModelSerializer" where
  "broken_serializer =
     \<lparr> Fields =
         [(''id'', WithRepresentationFunc (failing_repr ''bad id'') (NewField ''id'')),
          (''name'', WithRepresentationFunc (failing_repr ''bad name'') (NewField ''name''))],
       FieldTypeMapper = no_mapper \<rparr>"

definition hidden_id_serializer :: "(unit, unit) ModelSerializer" where
  "hidden_id_serializer =
     \<lparr> Fields = [(''id'', (NewField ''id'')\<lparr>Readable := False\<rparr>), (''name'', NewField ''name'')],
       FieldTypeMapper = no_mapper \<rparr>"


definition plain_type :: "string \<Rightarrow> 't \<Rightarrow> 't rtype" where
  "plain_type name zero =
     \<lparr> TypeString = name, IsInterface = False, New = zero,
       implementsTextMarshaler = False, MarshalText = (\<lambda>l. ([], None)),
       implementsTextUnmarshaler = False, UnmarshalText = (\<lambda>l text. (l, None)),
       implementsGRFRepresentable = False, implementsGRFParsable = False \<rparr>"


definition person_model :: "unit Model" where
  "person_model =
     \<lparr> ModelString = ''main.Person'',
       VisibleFields =
         [\<lparr> FieldName = ''ID'', Tag_json = ''id'', Anonymous = False, Exported = True,
            BehindNilPointer = False, FieldType = plain_type ''uint'' () \<rparr>,
          \<lparr> FieldName = ''Name'', Tag_json = ''name'', Anonymous = False, Exported = True,
            BehindNilPointer = False, FieldType = plain_type ''string'' () \<rparr>] \<rparr>"



section \<open>Properties of ToInternalValue\<close>

lemma range_early:
  "List.find (conversion_fails fs raw ctx) ks = Some k \<Longrightarrow>
   ToInternalValue_range fs raw ctx ks intVMap sf =
     Inl (ValidationError [k \<mapsto> [conversion_error fs raw ctx k]])"
proof (induction ks arbitrary: intVMap sf)
  case Nil
  then show ?case by simp
next
  case (Cons a ks)
  show ?case
  proof (cases "conversion_fails fs raw ctx a")
    case True
    with Cons.prems have "k = a" by simp
    with True show ?thesis
      by (auto simp: conversion_fails_def conversion_error_def split: option.splits prod.splits)
  next
    case False
    with Cons.prems have "List.find (conversion_fails fs raw ctx) ks = Some k" by simp
    from Cons.IH[OF this] False show ?thesis
      by (auto simp: conversion_fails_def split: option.splits prod.splits)
  qed
qed

lemma range_complete:
  "List.find (conversion_fails fs raw ctx) ks = None \<Longrightarrow>
   \<exists>intVMap'. ToInternalValue_range fs raw ctx ks intVMap sf =
       Inr (intVMap', sf @ unknown_keys fs ks) \<and>
     (\<forall>k. intVMap' k =
        (if k \<in> set ks \<and> (\<exists>field. map_of fs k = Some field \<and> Writable field)
         then Some (fst (Field_ToInternalValue (the (map_of fs k)) raw ctx))
         else intVMap k))"
proof (induction ks arbitrary: intVMap sf)
  case Nil
  then show ?case by (simp add: unknown_keys_def)
next
  case (Cons a ks)
  from Cons.prems have nf: "\<not> conversion_fails fs raw ctx a"
    and rest: "List.find (conversion_fails fs raw ctx) ks = None"
    by (auto split: if_splits)
  show ?case
  proof (cases "map_of fs a")
    case None
    from Cons.IH[OF rest, of intVMap "sf @ [a]"] obtain m where
      m: "ToInternalValue_range fs raw ctx ks intVMap (sf @ [a]) = Inr (m, (sf @ [a]) @ unknown_keys fs ks)"
      and c: "\<And>k. m k = (if k \<in> set ks \<and> (\<exists>field. map_of fs k = Some field \<and> Writable field)
         then Some (fst (Field_ToInternalValue (the (map_of fs k)) raw ctx))
         else intVMap k)" by blast
    have "ToInternalValue_range fs raw ctx (a # ks) intVMap sf = Inr (m, sf @ unknown_keys fs (a # ks))"
      using m None by (simp add: unknown_keys_def)
    moreover have "\<forall>k. m k = (if k \<in> set (a # ks) \<and> (\<exists>field. map_of fs k = Some field \<and> Writable field)
         then Some (fst (Field_ToInternalValue (the (map_of fs k)) raw ctx))
         else intVMap k)"
      using c None by auto
    ultimately show ?thesis by blast
  next
    case (Some field)
    show ?thesis
    proof (cases "Writable field")
      case False
      from Cons.IH[OF rest, of intVMap sf] obtain m where
        m: "ToInternalValue_range fs raw ctx ks intVMap sf = Inr (m, sf @ unknown_keys fs ks)"
        and c: "\<And>k. m k = (if k \<in> set ks \<and> (\<exists>field. map_of fs k = Some field \<and> Writable field)
           then Some (fst (Field_ToInternalValue (the (map_of fs k)) raw ctx))
           else intVMap k)" by blast
      have "ToInternalValue_range fs raw ctx (a # ks) intVMap sf = Inr (m, sf @ unknown_keys fs (a # ks))"
        using m Some False by (simp add: unknown_keys_def)
      moreover have "\<forall>k. m k = (if k \<in> set (a # ks) \<and> (\<exists>field. map_of fs k = Some field \<and> Writable field)
           then Some (fst (Field_ToInternalValue (the (map_of fs k)) raw ctx))
           else intVMap k)"
        using c Some False by auto
      ultimately show ?thesis by blast
    next
      case True
      with nf Some obtain v where v: "Field_ToInternalValue field raw ctx = (v, None)"
        by (cases "Field_ToInternalValue field raw ctx") (auto simp: conversion_fails_def)
      from Cons.IH[OF rest, of "intVMap(a \<mapsto> v)" sf] obtain m where
        m: "ToInternalValue_range fs raw ctx ks (intVMap(a \<mapsto> v)) sf = Inr (m, sf @ unknown_keys fs ks)"
        and c: "\<And>k. m k = (if k \<in> set ks \<and> (\<exists>field. map_of fs k = Some field \<and> Writable field)
           then Some (fst (Field_ToInternalValue (the (map_of fs k)) raw ctx))
           else (intVMap(a \<mapsto> v)) k)" by blast
      have "ToInternalValue_range fs raw ctx (a # ks) intVMap sf = Inr (m, sf @ unknown_keys fs (a # ks))"
        using m Some True v by (simp add: unknown_keys_def)
      moreover have "\<forall>k. m k = (if k \<in> set (a # ks) \<and> (\<exists>field. map_of fs k = Some field \<and> Writable field)
           then Some (fst (Field_ToInternalValue (the (map_of fs k)) raw ctx))
           else intVMap k)"
        using c Some True v by auto
      ultimately show ?thesis by blast
    qed
  qed
qed

lemma errMap_fold:
  "fold (\<lambda>field m. m(field \<mapsto> [g field])) xs m0 k =
     (if k \<in> set xs then Some [g k] else m0 k)"
  by (induction xs arbitrary: m0) auto

lemma ToInternalValue_early:
  assumes "List.find (conversion_fails (Fields s) (map_of raw) ctx) (map fst raw) = Some k"
  shows "ToInternalValue s raw ctx =
           Inl (ValidationError [k \<mapsto> [conversion_error (Fields s) (map_of raw) ctx k]])"
  using range_early[OF assms] by (simp add: ToInternalValue_def)

lemma ToInternalValue_unknown:
  assumes "List.find (conversion_fails (Fields s) (map_of raw) ctx) (map fst raw) = None"
    and "unknown_keys (Fields s) (map fst raw) \<noteq> []"
  shows "\<exists>errs. ToInternalValue s raw ctx = Inl (ValidationError errs) \<and>
           (\<forall>k. errs k =
              (if k \<in> set (unknown_keys (Fields s) (map fst raw))
               then Some [not_accepted k (map (\<lambda>(k, field). Name field) (Fields s))] else None))"
proof -
  from range_complete[OF assms(1), of Map.empty "[]"] obtain m where
    m: "ToInternalValue_range (Fields s) (map_of raw) ctx (map fst raw) Map.empty [] =
          Inr (m, unknown_keys (Fields s) (map fst raw))" by auto
  show ?thesis
    using assms(2) by (simp add: ToInternalValue_def m Let_def errMap_fold)
qed

lemma ToInternalValue_ok:
  assumes "List.find (conversion_fails (Fields s) (map_of raw) ctx) (map fst raw) = None"
    and "unknown_keys (Fields s) (map fst raw) = []"
  shows "\<exists>intVMap. ToInternalValue s raw ctx = Inr intVMap \<and>
           (\<forall>k. intVMap k =
              (if k \<in> fst ` set raw \<and> (\<exists>field. map_of (Fields s) k = Some field \<and> Writable field)
               then Some (fst (Field_ToInternalValue (the (map_of (Fields s) k)) (map_of raw) ctx))
               else None))"
proof -
  from range_complete[OF assms(1), of Map.empty "[]"] obtain m where
    m: "ToInternalValue_range (Fields s) (map_of raw) ctx (map fst raw) Map.empty [] =
          Inr (m, unknown_keys (Fields s) (map fst raw))"
    and c: "\<forall>k. m k =
        (if k \<in> set (map fst raw) \<and> (\<exists>field. map_of (Fields s) k = Some field \<and> Writable field)
         then Some (fst (Field_ToInternalValue (the (map_of (Fields s) k)) (map_of raw) ctx))
         else Map.empty k)" by auto
  show ?thesis
    using assms(2) c by (simp add: ToInternalValue_def m)
qed

lemma unknown_keys_set:
  "set (unknown_keys fs ks) = {k \<in> set ks. map_of fs k = None}"
  by (auto simp: unknown_keys_def)

lemma Join_contains:
  "x \<in> set xs \<Longrightarrow> \<exists>pre post. Join xs sep = pre @ x @ post"
proof (induction xs sep rule: Join.induct)
  case (1 sep)
  then show ?case by simp
next
  case (2 y sep)
  then have "Join [y] sep = [] @ x @ []" by simp
  then show ?case by blast
next
  case (3 y z zs sep)
  show ?case
  proof (cases "x = y")
    case True
    then have "Join (y # z # zs) sep = [] @ x @ (sep @ Join (z # zs) sep)" by simp
    then show ?thesis by blast
  next
    case False
    with 3 obtain pre post where "Join (z # zs) sep = pre @ x @ post" by auto
    then have "Join (y # z # zs) sep = (y @ sep @ pre) @ x @ post" by simp
    then show ?thesis by blast
  qed
qed

text \<open>
  Claim C1, as amended. When the input has at least one key that is not registered, and
  no registered writable key of the input has a failing conversion, \<^verbatim>\<open>ToInternalValue\<close>
  returns a \<^verbatim>\<open>ValidationError\<close> whose entries are exactly the unregistered keys of the
  input, and the message of each entry is the text of \<^verbatim>\<open>model.go\<close>, line 46, with the
  key and the names of all registered fields, joined in the order in which the registry is
  ranged over; every registered name occurs in it.
\<close>

theorem C1_unknown_keys_reported:
  assumes unknown: "\<exists>k \<in> fst ` set raw. map_of (Fields s) k = None"
    and ok: "\<forall>k \<in> fst ` set raw. \<not> conversion_fails (Fields s) (map_of raw) ctx k"
  shows "\<exists>errs. ToInternalValue s raw ctx = Inl (ValidationError errs) \<and>
           dom errs = {k \<in> fst ` set raw. map_of (Fields s) k = None} \<and>
           (\<forall>k \<in> dom errs.
              errs k =
                Some [''Field `'' @ k @ ''` is not accepted by this endpoint, accepted fields: ''
                      @ Join (map (\<lambda>(k, field). Name field) (Fields s)) '', '']) \<and>
           (\<forall>(k, field) \<in> set (Fields s).
              \<exists>pre post. Join (map (\<lambda>(k, field). Name field) (Fields s)) '', '' =
                pre @ Name field @ post)"
proof -
  from ok have f: "List.find (conversion_fails (Fields s) (map_of raw) ctx) (map fst raw) = None"
    by (simp add: find_None_iff)
  from unknown have u: "unknown_keys (Fields s) (map fst raw) \<noteq> []"
    by (auto simp: unknown_keys_def filter_empty_conv)
  from ToInternalValue_unknown[OF f u] obtain errs where
    e: "ToInternalValue s raw ctx = Inl (ValidationError errs)"
    and c: "\<And>k. errs k =
              (if k \<in> set (unknown_keys (Fields s) (map fst raw))
               then Some [not_accepted k (map (\<lambda>(k, field). Name field) (Fields s))] else None)"
    by blast
  have d: "dom errs = {k \<in> fst ` set raw. map_of (Fields s) k = None}"
    by (auto simp: c unknown_keys_set dom_def)
  have m: "\<forall>k \<in> dom errs. errs k =
      Some [''Field `'' @ k @ ''` is not accepted by this endpoint, accepted fields: ''
            @ Join (map (\<lambda>(k, field). Name field) (Fields s)) '', '']"
    by (auto simp: c not_accepted_def split: if_splits)
  have n: "\<forall>(k, field) \<in> set (Fields s).
      \<exists>pre post. Join (map (\<lambda>(k, field). Name field) (Fields s)) '', '' = pre @ Name field @ post"
  proof (clarify)
    fix k field assume "(k, field) \<in> set (Fields s)"
    then have "Name field \<in> set (map (\<lambda>(k, field). Name field) (Fields s))" by force
    then show "\<exists>pre post. Join (map (\<lambda>(k, field). Name field) (Fields s)) '', '' =
        pre @ Name field @ post"
      by (rule Join_contains)
  qed
  from e d m n show ?thesis by blast
qed

theorem C1_unknown_keys_reported_witness:
  "(\<exists>k \<in> fst ` set [(''name'', AString ''John''), (''extra'', AString ''x'')].
      map_of (Fields person_serializer) k = None) \<and>
   ToInternalValue person_serializer [(''name'', AString ''John''), (''extra'', AString ''x'')] () =
     Inl (ValidationError
       [''extra'' \<mapsto> [''Field `extra` is not accepted by this endpoint, accepted fields: id, name'']])"
proof -
  let ?raw = "[(''name'', AString ''John''), (''extra'', AString ''x'')] :: (string \<times> unit any) list"
  have n: "map_of (Fields person_serializer) ''name'' \<noteq> None"
    by (simp add: person_serializer_def)
  have x: "map_of (Fields person_serializer) ''extra'' = None"
    by (simp add: person_serializer_def)
  have u: "\<exists>k \<in> fst ` set ?raw. map_of (Fields person_serializer) k = None"
    using x by simp
  have ok: "\<forall>k \<in> fst ` set ?raw. \<not> conversion_fails (Fields person_serializer) (map_of ?raw) () k"
    by (simp add: person_serializer_def conversion_fails_def NewField_def Field_ToInternalValue_def
        ConvertFuncToInternalValueFuncAdapter_def ConvertPassThrough_def)
  from C1_unknown_keys_reported[OF u ok] obtain errs where
    e: "ToInternalValue person_serializer ?raw () = Inl (ValidationError errs)"
    and d: "dom errs = {k \<in> fst ` set ?raw. map_of (Fields person_serializer) k = None}"
    and m: "\<forall>k \<in> dom errs. errs k =
        Some [''Field `'' @ k @ ''` is not accepted by this endpoint, accepted fields: ''
              @ Join (map (\<lambda>(k, field). Name field) (Fields person_serializer)) '', '']"
    by blast
  have "{k \<in> fst ` set ?raw. map_of (Fields person_serializer) k = None} = {''extra''}"
    using n x by auto
  with d have d': "dom errs = {''extra''}" by simp
  have names: "Join (map (\<lambda>(k, field). Name field) (Fields person_serializer)) '', '' = ''id, name''"
    by (simp add: person_serializer_def NewField_def)
  from m d' have v: "errs ''extra'' =
      Some [''Field `extra` is not accepted by this endpoint, accepted fields: id, name'']"
    by (simp add: names)
  have "errs =
      [''extra'' \<mapsto> [''Field `extra` is not accepted by this endpoint, accepted fields: id, name'']]"
  proof (rule ext)
    fix k
    show "errs k =
      [''extra'' \<mapsto> [''Field `extra` is not accepted by this endpoint, accepted fields: id, name'']] k"
    proof (cases "k = ''extra''")
      case True
      with v show ?thesis by simp
    next
      case False
      with d' have "k \<notin> dom errs" by simp
      then have "errs k = None" by (simp add: domIff)
      with False show ?thesis by simp
    qed
  qed
  with e u show ?thesis by simp
qed

text \<open>
  Claim C1 as stated fails: a registered writable key whose conversion fails makes the
  loop return at once, and the unregistered key \<^verbatim>\<open>extra\<close> of the same input gets no
  entry, whichever of the two keys is visited first.
\<close>

theorem C1_counterexample:
  "map_of (Fields strict_serializer) ''extra'' = None \<and>
   ToInternalValue strict_serializer [(''name'', AInt 7), (''extra'', AString ''x'')] () =
     Inl (ValidationError [''name'' \<mapsto> [''not a string'']]) \<and>
   ToInternalValue strict_serializer [(''extra'', AString ''x''), (''name'', AInt 7)] () =
     Inl (ValidationError [''name'' \<mapsto> [''not a string'']]) \<and>
   [''name'' \<mapsto> [''not a string'']] ''extra'' = None"
  by (simp add: strict_serializer_def ToInternalValue_def NewField_def WithInternalValueFunc_def
      Field_ToInternalValue_def ConvertFuncToInternalValueFuncAdapter_def string_only_def
      index_def)

text \<open>
  Claim C3, as amended. A call of \<^verbatim>\<open>ToInternalValue\<close> that fails returns a
  \<^verbatim>\<open>ValidationError\<close> of one of two shapes. If some registered writable key of the input
  has a failing conversion, the error has exactly one entry, for the first such key in
  iteration order, with the message of its conversion error. Otherwise its entries are
  exactly the unregistered keys of the input.
\<close>

theorem C3_failure_shape:
  assumes "ToInternalValue s raw ctx = Inl e"
  shows "(case List.find (conversion_fails (Fields s) (map_of raw) ctx) (map fst raw) of
            Some k \<Rightarrow> FieldErrors e = [k \<mapsto> [conversion_error (Fields s) (map_of raw) ctx k]]
          | None \<Rightarrow> dom (FieldErrors e) = {k \<in> fst ` set raw. map_of (Fields s) k = None})"
proof (cases "List.find (conversion_fails (Fields s) (map_of raw) ctx) (map fst raw)")
  case (Some k)
  with ToInternalValue_early[OF Some] assms show ?thesis by simp
next
  case None
  show ?thesis
  proof (cases "unknown_keys (Fields s) (map fst raw) = []")
    case True
    from ToInternalValue_ok[OF None True] assms show ?thesis by auto
  next
    case False
    from ToInternalValue_unknown[OF None False] obtain errs where
      e: "ToInternalValue s raw ctx = Inl (ValidationError errs)"
      and c: "\<And>k. errs k =
              (if k \<in> set (unknown_keys (Fields s) (map fst raw))
               then Some [not_accepted k (map (\<lambda>(k, field). Name field) (Fields s))] else None)"
      by blast
    have "dom errs = {k \<in> fst ` set raw. map_of (Fields s) k = None}"
      by (auto simp: c unknown_keys_set dom_def)
    with e assms None show ?thesis by simp
  qed
qed

theorem C3_failure_shape_witness:
  "ToInternalValue strict_serializer [(''id'', AInt 1), (''name'', AInt 7)] () =
     Inl (ValidationError [''name'' \<mapsto> [''not a string'']]) \<and>
   List.find (conversion_fails (Fields strict_serializer)
       (map_of [(''id'', AInt 1), (''name'', AInt 7)]) ())
     (map fst [(''id'', AInt 1 :: unit any), (''name'', AInt 7)]) = Some ''name'' \<and>
   FieldErrors (ValidationError [''name'' \<mapsto> [''not a string'']]) =
     [''name'' \<mapsto> [conversion_error (Fields strict_serializer)
        (map_of [(''id'', AInt 1), (''name'', AInt 7)]) () ''name'']]"
proof -
  let ?raw = "[(''id'', AInt 1), (''name'', AInt 7)] :: (string \<times> unit any) list"
  have r: "ToInternalValue strict_serializer ?raw () =
      Inl (ValidationError [''name'' \<mapsto> [''not a string'']])"
    by (simp add: strict_serializer_def ToInternalValue_def NewField_def WithInternalValueFunc_def
        Field_ToInternalValue_def ConvertFuncToInternalValueFuncAdapter_def string_only_def
        number_only_def index_def)
  have f: "List.find (conversion_fails (Fields strict_serializer) (map_of ?raw) ())
      (map fst ?raw) = Some ''name''"
    by (simp add: strict_serializer_def conversion_fails_def NewField_def WithInternalValueFunc_def
        Field_ToInternalValue_def ConvertFuncToInternalValueFuncAdapter_def string_only_def
        number_only_def index_def)
  from C3_failure_shape[OF r] f r show ?thesis by simp
qed

text \<open>
  Claim C3 as stated fails: with two registered writable keys whose conversions both
  fail, the error has an entry for the first one only.
\<close>

theorem C3_counterexample:
  "conversion_fails (Fields strict_serializer)
     (map_of [(''id'', AString ''one''), (''name'', AInt 7)]) () ''name'' \<and>
   ToInternalValue strict_serializer [(''id'', AString ''one''), (''name'', AInt 7)] () =
     Inl (ValidationError [''id'' \<mapsto> [''not a number'']]) \<and>
   [''id'' \<mapsto> [''not a number'']] ''name'' = None"
  by (simp add: strict_serializer_def ToInternalValue_def NewField_def WithInternalValueFunc_def
      Field_ToInternalValue_def ConvertFuncToInternalValueFuncAdapter_def string_only_def
      number_only_def index_def conversion_fails_def)

lemma map_of_replaced:
  "map_of (map (\<lambda>(k, field). (k, if k = name then h field else field)) fs) k' =
     map_option (\<lambda>field. if k' = name then h field else field) (map_of fs k')"
  by (induction fs) auto

lemma range_replaced:
  assumes "map_of fs name = Some field" "\<not> Writable field"
  shows "ToInternalValue_range
           (map (\<lambda>(k, field). (k, if k = name then WithInternalValueFunc g field else field)) fs)
           raw ctx ks intVMap sf =
         ToInternalValue_range fs raw ctx ks intVMap sf"
proof (induction ks arbitrary: intVMap sf)
  case Nil
  show ?case by simp
next
  case (Cons a ks)
  show ?case
  proof (cases "a = name")
    case True
    with assms Cons.IH show ?thesis
      by (simp add: map_of_replaced WithInternalValueFunc_def)
  next
    case False
    then have same: "map_of (map (\<lambda>(k, field). (k, if k = name then WithInternalValueFunc g field else field)) fs) a
        = map_of fs a"
      by (simp add: map_of_replaced option.map_ident)
    show ?thesis
      by (simp only: ToInternalValue_range.simps same Cons.IH)
  qed
qed

lemma names_replaced:
  "map (\<lambda>(k, field). Name field)
     (map (\<lambda>(k, field). (k, if k = name then WithInternalValueFunc g field else field)) fs) =
   map (\<lambda>(k, field). Name field) fs"
  by (induction fs) (auto simp: WithInternalValueFunc_def)

text \<open>
  Claim C5. For a key registered with a field that is not writable, a successful
  \<^verbatim>\<open>ToInternalValue\<close> returns a map without that key, a failing one returns an error
  without an entry for that key, and the result is the same whatever
  \<^verbatim>\<open>InternalValueFunc\<close> the field has: the function is not applied.
\<close>

theorem C5_read_only_key_skipped:
  assumes reg: "map_of (Fields s) name = Some field" and ro: "\<not> Writable field"
  shows "(\<forall>intVMap. ToInternalValue s raw ctx = Inr intVMap \<longrightarrow> intVMap name = None) \<and>
         (\<forall>e. ToInternalValue s raw ctx = Inl e \<longrightarrow> FieldErrors e name = None) \<and>
         (\<forall>g. ToInternalValue (with_InternalValueFunc_at name g s) raw ctx =
               ToInternalValue s raw ctx)"
proof (intro conjI allI impI)
  fix intVMap assume r: "ToInternalValue s raw ctx = Inr intVMap"
  show "intVMap name = None"
  proof (cases "List.find (conversion_fails (Fields s) (map_of raw) ctx) (map fst raw)")
    case (Some k)
    from ToInternalValue_early[OF Some] r show ?thesis by simp
  next
    case None
    show ?thesis
    proof (cases "unknown_keys (Fields s) (map fst raw) = []")
      case True
      from ToInternalValue_ok[OF None True] r reg ro show ?thesis by auto
    next
      case False
      from ToInternalValue_unknown[OF None False] r show ?thesis by auto
    qed
  qed
next
  fix e assume l: "ToInternalValue s raw ctx = Inl e"
  show "FieldErrors e name = None"
  proof (cases "List.find (conversion_fails (Fields s) (map_of raw) ctx) (map fst raw)")
    case (Some k)
    then have "conversion_fails (Fields s) (map_of raw) ctx k"
      by (auto simp: find_Some_iff)
    with reg ro have "k \<noteq> name" by (auto simp: conversion_fails_def)
    with ToInternalValue_early[OF Some] l show ?thesis by auto
  next
    case None
    show ?thesis
    proof (cases "unknown_keys (Fields s) (map fst raw) = []")
      case True
      from ToInternalValue_ok[OF None True] l show ?thesis by auto
    next
      case False
      from ToInternalValue_unknown[OF None False] l reg show ?thesis
        by (auto simp: unknown_keys_set)
    qed
  qed
next
  fix g
  show "ToInternalValue (with_InternalValueFunc_at name g s) raw ctx = ToInternalValue s raw ctx"
  proof -
    have f: "Fields (with_InternalValueFunc_at name g s) =
        map (\<lambda>(k, field). (k, if k = name then WithInternalValueFunc g field else field)) (Fields s)"
      by (simp add: with_InternalValueFunc_at_def)
    show ?thesis
      unfolding ToInternalValue_def f range_replaced[OF reg ro] names_replaced ..
  qed
qed

theorem C5_read_only_key_skipped_witness:
  "map_of (Fields read_only_id_serializer) ''id'' = Some ((NewField ''id'')\<lparr>Writable := False\<rparr>) \<and>
   \<not> Writable ((NewField ''id'' :: (unit, unit) Field)\<lparr>Writable := False\<rparr>) \<and>
   ToInternalValue read_only_id_serializer [(''id'', AInt 5), (''name'', AString ''John'')] () =
     Inr [''name'' \<mapsto> AString ''John''] \<and>
   ToInternalValue
     (with_InternalValueFunc_at ''id'' (ConvertFuncToInternalValueFuncAdapter string_only)
        read_only_id_serializer)
     [(''id'', AInt 5), (''name'', AString ''John'')] () =
     Inr [''name'' \<mapsto> AString ''John'']"
proof -
  let ?raw = "[(''id'', AInt 5), (''name'', AString ''John'')] :: (string \<times> unit any) list"
  have reg: "map_of (Fields read_only_id_serializer) ''id'' =
      Some ((NewField ''id'')\<lparr>Writable := False\<rparr>)"
    by (simp add: read_only_id_serializer_def)
  have ro: "\<not> Writable ((NewField ''id'' :: (unit, unit) Field)\<lparr>Writable := False\<rparr>)"
    by simp
  have r: "ToInternalValue read_only_id_serializer ?raw () = Inr [''name'' \<mapsto> AString ''John'']"
    by (simp add: read_only_id_serializer_def ToInternalValue_def NewField_def
        Field_ToInternalValue_def ConvertFuncToInternalValueFuncAdapter_def ConvertPassThrough_def
        index_def)
  from C5_read_only_key_skipped[OF reg ro, of ?raw "()"] r reg ro show ?thesis by simp
qed

section \<open>Properties of ToRepresentation\<close>

lemma ToRepresentation_range_early:
  "List.find (representation_fails intVal ctx) fs = Some (k, field) \<Longrightarrow>
   \<exists>err. snd (Field_ToRepresentation field intVal ctx) = Some err \<and>
     ToRepresentation_range fs intVal ctx raw = Inl (serialize_failed (Name field) err)"
proof (induction fs arbitrary: raw)
  case Nil
  then show ?case by simp
next
  case (Cons a fs)
  obtain k' f' where a: "a = (k', f')" by (cases a)
  show ?case
  proof (cases "representation_fails intVal ctx a")
    case True
    with Cons.prems have "a = (k, field)" by simp
    with True a show ?thesis
      by (cases "Field_ToRepresentation field intVal ctx")
         (auto simp: representation_fails_def)
  next
    case False
    with Cons.prems have "List.find (representation_fails intVal ctx) fs = Some (k, field)"
      by simp
    from Cons.IH[OF this] False a show ?thesis
      by (cases "Field_ToRepresentation f' intVal ctx")
         (auto simp: representation_fails_def)
  qed
qed

lemma ToRepresentation_range_ok:
  "List.find (representation_fails intVal ctx) fs = None \<Longrightarrow>
   \<exists>raw'. ToRepresentation_range fs intVal ctx raw = Inr raw' \<and>
     dom raw' = dom raw \<union> {Name field |k field. (k, field) \<in> set fs \<and> Readable field} \<and>
     (\<forall>n. n \<notin> {Name field |k field. (k, field) \<in> set fs \<and> Readable field} \<longrightarrow> raw' n = raw n) \<and>
     (distinct (map (\<lambda>(k, field). Name field) fs) \<longrightarrow>
        (\<forall>(k, field) \<in> set fs. Readable field \<longrightarrow>
           raw' (Name field) = Some (fst (Field_ToRepresentation field intVal ctx))))"
proof (induction fs arbitrary: raw)
  case Nil
  then show ?case by simp
next
  case (Cons a fs)
  obtain k' f' where a: "a = (k', f')" by (cases a)
  from Cons.prems have nf: "\<not> representation_fails intVal ctx a"
    and rest: "List.find (representation_fails intVal ctx) fs = None"
    by (auto split: if_splits)
  show ?case
  proof (cases "Readable f'")
    case False
    from Cons.IH[OF rest, of raw] obtain raw' where
      r: "ToRepresentation_range fs intVal ctx raw = Inr raw'"
      and d: "dom raw' = dom raw \<union> {Name field |k field. (k, field) \<in> set fs \<and> Readable field}"
      and o: "\<forall>n. n \<notin> {Name field |k field. (k, field) \<in> set fs \<and> Readable field} \<longrightarrow> raw' n = raw n"
      and v: "distinct (map (\<lambda>(k, field). Name field) fs) \<longrightarrow>
        (\<forall>(k, field) \<in> set fs. Readable field \<longrightarrow>
           raw' (Name field) = Some (fst (Field_ToRepresentation field intVal ctx)))"
      by blast
    have same: "{Name field |k field. (k, field) \<in> set (a # fs) \<and> Readable field} =
          {Name field |k field. (k, field) \<in> set fs \<and> Readable field}"
      using a False by auto
    have "ToRepresentation_range (a # fs) intVal ctx raw = Inr raw'"
      using r a False by simp
    moreover have "distinct (map (\<lambda>(k, field). Name field) (a # fs)) \<longrightarrow>
        (\<forall>(k, field) \<in> set (a # fs). Readable field \<longrightarrow>
           raw' (Name field) = Some (fst (Field_ToRepresentation field intVal ctx)))"
      using v a False by auto
    ultimately show ?thesis using d o unfolding same by blast
  next
    case True
    with nf a obtain x where x: "Field_ToRepresentation f' intVal ctx = (x, None)"
      by (cases "Field_ToRepresentation f' intVal ctx") (auto simp: representation_fails_def)
    from Cons.IH[OF rest, of "raw(Name f' \<mapsto> x)"] obtain raw' where
      r: "ToRepresentation_range fs intVal ctx (raw(Name f' \<mapsto> x)) = Inr raw'"
      and d: "dom raw' = dom (raw(Name f' \<mapsto> x)) \<union> {Name field |k field. (k, field) \<in> set fs \<and> Readable field}"
      and o: "\<forall>n. n \<notin> {Name field |k field. (k, field) \<in> set fs \<and> Readable field} \<longrightarrow>
                raw' n = (raw(Name f' \<mapsto> x)) n"
      and v: "distinct (map (\<lambda>(k, field). Name field) fs) \<longrightarrow>
        (\<forall>(k, field) \<in> set fs. Readable field \<longrightarrow>
           raw' (Name field) = Some (fst (Field_ToRepresentation field intVal ctx)))"
      by blast
    have more: "{Name field |k field. (k, field) \<in> set (a # fs) \<and> Readable field} =
          insert (Name f') {Name field |k field. (k, field) \<in> set fs \<and> Readable field}"
      using a True by auto
    have 1: "ToRepresentation_range (a # fs) intVal ctx raw = Inr raw'"
      using r a True x by simp
    have 2: "dom raw' = dom raw \<union> {Name field |k field. (k, field) \<in> set (a # fs) \<and> Readable field}"
      unfolding more using d by auto
    have 3: "\<forall>n. n \<notin> {Name field |k field. (k, field) \<in> set (a # fs) \<and> Readable field} \<longrightarrow>
                raw' n = raw n"
      unfolding more using o by auto
    have 4: "distinct (map (\<lambda>(k, field). Name field) (a # fs)) \<longrightarrow>
        (\<forall>(k, field) \<in> set (a # fs). Readable field \<longrightarrow>
           raw' (Name field) = Some (fst (Field_ToRepresentation field intVal ctx)))"
    proof (intro impI)
      assume dist: "distinct (map (\<lambda>(k, field). Name field) (a # fs))"
      then have fresh: "Name f' \<notin> {Name field |k field. (k, field) \<in> set fs \<and> Readable field}"
        using a by force
      from dist have "distinct (map (\<lambda>(k, field). Name field) fs)" by simp
      with v have tl: "\<forall>(k, field) \<in> set fs. Readable field \<longrightarrow>
           raw' (Name field) = Some (fst (Field_ToRepresentation field intVal ctx))" by blast
      from o fresh have "raw' (Name f') = Some x" by simp
      with tl a x show "\<forall>(k, field) \<in> set (a # fs). Readable field \<longrightarrow>
           raw' (Name field) = Some (fst (Field_ToRepresentation field intVal ctx))"
        by auto
    qed
    from 1 2 3 4 show ?thesis by blast
  qed
qed

lemma ToRepresentation_early:
  assumes "List.find (representation_fails intVal ctx) (Fields s) = Some (k, field)"
  shows "\<exists>err. snd (Field_ToRepresentation field intVal ctx) = Some err \<and>
     ToRepresentation s intVal ctx = Inl (serialize_failed (Name field) err)"
  using ToRepresentation_range_early[OF assms] by (simp add: ToRepresentation_def)

lemma ToRepresentation_ok:
  assumes "List.find (representation_fails intVal ctx) (Fields s) = None"
  shows "\<exists>raw. ToRepresentation s intVal ctx = Inr raw \<and>
     dom raw = {Name field |k field. (k, field) \<in> set (Fields s) \<and> Readable field} \<and>
     (\<forall>n. n \<notin> {Name field |k field. (k, field) \<in> set (Fields s) \<and> Readable field} \<longrightarrow> raw n = None) \<and>
     (distinct (map (\<lambda>(k, field). Name field) (Fields s)) \<longrightarrow>
        (\<forall>(k, field) \<in> set (Fields s). Readable field \<longrightarrow>
           raw (Name field) = Some (fst (Field_ToRepresentation field intVal ctx))))"
  using ToRepresentation_range_ok[OF assms, of Map.empty] by (simp add: ToRepresentation_def)

lemma unique_name:
  assumes "distinct (map (\<lambda>(k, field). Name field) fs)"
    and "(k, field) \<in> set fs" and "(k', field') \<in> set fs" and "Name field' = Name field"
  shows "field' = field"
proof -
  from assms(1) have "inj_on (\<lambda>(k, field). Name field) (set fs)"
    by (simp add: distinct_map)
  from inj_onD[OF this _ assms(3) assms(2)] assms(4) show ?thesis by simp
qed

text \<open>
  Claim C6. In a registry whose fields have pairwise different names (the invariant of the
  data model, section 3), the name of a registered field that is not readable is not a key
  of the wire map that \<^verbatim>\<open>ToRepresentation\<close> returns, whatever the internal value holds.
\<close>

theorem C6_unreadable_field_absent:
  assumes names: "distinct (map (\<lambda>(k, field). Name field) (Fields s))"
    and reg: "(k, field) \<in> set (Fields s)"
    and hidden: "\<not> Readable field"
    and res: "ToRepresentation s intVal ctx = Inr raw"
  shows "raw (Name field) = None"
proof (cases "List.find (representation_fails intVal ctx) (Fields s)")
  case (Some kf)
  obtain k' f' where "kf = (k', f')" by (cases kf)
  with Some ToRepresentation_early[of intVal ctx s k' f'] res show ?thesis by auto
next
  case None
  from ToRepresentation_ok[OF None] res have
    out: "\<forall>n. n \<notin> {Name field |k field. (k, field) \<in> set (Fields s) \<and> Readable field} \<longrightarrow> raw n = None"
    by auto
  have "Name field \<notin> {Name field |k field. (k, field) \<in> set (Fields s) \<and> Readable field}"
  proof
    assume "Name field \<in> {Name field |k field. (k, field) \<in> set (Fields s) \<and> Readable field}"
    then obtain k' field' where m: "(k', field') \<in> set (Fields s)" and r: "Readable field'"
      and n: "Name field' = Name field" by auto
    from unique_name[OF names reg m n] r hidden show False by simp
  qed
  with out show ?thesis by blast
qed

theorem C6_unreadable_field_absent_witness:
  "distinct (map (\<lambda>(k, field). Name field) (Fields hidden_id_serializer)) \<and>
   (''id'', (NewField ''id'')\<lparr>Readable := False\<rparr>) \<in> set (Fields hidden_id_serializer) \<and>
   ToRepresentation hidden_id_serializer [''id'' \<mapsto> AInt 1, ''name'' \<mapsto> AString ''John''] () =
     Inr [''name'' \<mapsto> AString ''John''] \<and>
   [''name'' \<mapsto> AString ''John'' :: unit any] ''id'' = None"
proof -
  let ?iv = "[''id'' \<mapsto> AInt 1, ''name'' \<mapsto> AString ''John''] :: string \<rightharpoonup> unit any"
  have names: "distinct (map (\<lambda>(k, field). Name field) (Fields hidden_id_serializer))"
    by (simp add: hidden_id_serializer_def NewField_def)
  have reg: "(''id'', (NewField ''id'')\<lparr>Readable := False\<rparr>) \<in> set (Fields hidden_id_serializer)"
    by (simp add: hidden_id_serializer_def)
  have hidden: "\<not> Readable ((NewField ''id'' :: (unit, unit) Field)\<lparr>Readable := False\<rparr>)"
    by simp
  have res: "ToRepresentation hidden_id_serializer ?iv () = Inr [''name'' \<mapsto> AString ''John'']"
    by (simp add: hidden_id_serializer_def ToRepresentation_def NewField_def
        Field_ToRepresentation_def ConvertFuncToRepresentationFuncAdapter_def
        ConvertPassThrough_def index_def)
  from C6_unreadable_field_absent[OF names reg hidden res] names reg res
  show ?thesis by (simp add: NewField_def)
qed

text \<open>
  Claim C7. If the conversion of some readable field fails on the internal value,
  \<^verbatim>\<open>ToRepresentation\<close> returns no wire map but one error: the conversion error of the
  first such field in iteration order, wrapped by \<^verbatim>\<open>fmt.Errorf\<close> in the message of
  lines 62 to 64, which holds the name of that field and the message of the conversion
  error.
\<close>

theorem C7_first_failure_wins:
  assumes "\<exists>kf \<in> set (Fields s). representation_fails intVal ctx kf"
  shows "\<exists>k field err.
           List.find (representation_fails intVal ctx) (Fields s) = Some (k, field) \<and>
           Readable field \<and> snd (Field_ToRepresentation field intVal ctx) = Some err \<and>
           ToRepresentation s intVal ctx =
             Inl (WrapError (''Failed to serialize field `'' @ Name field
                             @ ''` to representation: '' @ Error err) err)"
proof -
  from assms obtain kf where f: "List.find (representation_fails intVal ctx) (Fields s) = Some kf"
    by (cases "List.find (representation_fails intVal ctx) (Fields s)") (auto simp: find_None_iff)
  obtain k field where kf: "kf = (k, field)" by (cases kf)
  from f kf have "representation_fails intVal ctx (k, field)"
    by (auto simp: find_Some_iff)
  then have r: "Readable field" by (simp add: representation_fails_def)
  from ToRepresentation_early[of intVal ctx s k field] f kf r show ?thesis
    by (auto simp: serialize_failed_def)
qed

theorem C7_first_failure_wins_witness:
  "(\<exists>kf \<in> set (Fields broken_serializer). representation_fails Map.empty () kf) \<and>
   ToRepresentation broken_serializer Map.empty () =
     Inl (WrapError ''Failed to serialize field `id` to representation: bad id''
            (ErrorString ''bad id''))"
proof -
  have h: "\<exists>kf \<in> set (Fields broken_serializer). representation_fails Map.empty () kf"
    by (simp add: broken_serializer_def representation_fails_def NewField_def
        WithRepresentationFunc_def Field_ToRepresentation_def failing_repr_def)
  have f: "List.find (representation_fails Map.empty ()) (Fields broken_serializer) =
      Some (''id'', WithRepresentationFunc (failing_repr ''bad id'') (NewField ''id''))"
    by (simp add: broken_serializer_def representation_fails_def NewField_def
        WithRepresentationFunc_def Field_ToRepresentation_def failing_repr_def)
  from C7_first_failure_wins[OF h] obtain k field err where
    1: "List.find (representation_fails Map.empty ()) (Fields broken_serializer) = Some (k, field)"
    and 2: "snd (Field_ToRepresentation field Map.empty ()) = Some err"
    and 3: "ToRepresentation broken_serializer Map.empty () =
        Inl (WrapError (''Failed to serialize field `'' @ Name field
                        @ ''` to representation: '' @ Error err) err)"
    by blast
  have "Some (k, field) =
      Some (''id'', WithRepresentationFunc (failing_repr ''bad id'') (NewField ''id''))"
    by (rule trans[OF 1[symmetric] f])
  then have fld: "field = WithRepresentationFunc (failing_repr ''bad id'') (NewField ''id'')"
    by (simp only: option.inject prod.inject)
  with 2 have "err = ErrorString ''bad id''"
    by (simp add: NewField_def WithRepresentationFunc_def Field_ToRepresentation_def
        failing_repr_def)
  with 3 fld have "ToRepresentation broken_serializer Map.empty () =
     Inl (WrapError ''Failed to serialize field `id` to representation: bad id''
            (ErrorString ''bad id''))"
    by (simp add: NewField_def WithRepresentationFunc_def)
  with h show ?thesis by simp
qed

text \<open>
  Claim C10. If no readable field's conversion fails, \<^verbatim>\<open>ToRepresentation\<close> returns a wire
  map whose keys are exactly the names of the readable registered fields. With pairwise
  different names, the entry of each readable field is the value of its conversion; for a
  field built with the adapter of a conversion function \<open>cf\<close> whose key is absent from the
  internal value, that is the value of \<open>cf\<close> at nil.
\<close>

theorem C10_keys_are_readable_names:
  assumes "\<forall>kf \<in> set (Fields s). \<not> representation_fails intVal ctx kf"
  shows "\<exists>raw. ToRepresentation s intVal ctx = Inr raw \<and>
     dom raw = {Name field |k field. (k, field) \<in> set (Fields s) \<and> Readable field} \<and>
     (distinct (map (\<lambda>(k, field). Name field) (Fields s)) \<longrightarrow>
        (\<forall>(k, field) \<in> set (Fields s). Readable field \<longrightarrow>
           raw (Name field) = Some (fst (Field_ToRepresentation field intVal ctx))) \<and>
        (\<forall>(k, field) \<in> set (Fields s). \<forall>cf.
           Readable field \<and> RepresentationFunc field = ConvertFuncToRepresentationFuncAdapter cf \<and>
           intVal (Name field) = None \<longrightarrow>
           raw (Name field) = Some (fst (cf ANil))))"
proof -
  from assms have f: "List.find (representation_fails intVal ctx) (Fields s) = None"
    by (simp add: find_None_iff)
  from ToRepresentation_ok[OF f] obtain raw where
    r: "ToRepresentation s intVal ctx = Inr raw"
    and d: "dom raw = {Name field |k field. (k, field) \<in> set (Fields s) \<and> Readable field}"
    and v: "distinct (map (\<lambda>(k, field). Name field) (Fields s)) \<longrightarrow>
        (\<forall>(k, field) \<in> set (Fields s). Readable field \<longrightarrow>
           raw (Name field) = Some (fst (Field_ToRepresentation field intVal ctx)))"
    by blast
  have "distinct (map (\<lambda>(k, field). Name field) (Fields s)) \<longrightarrow>
        (\<forall>(k, field) \<in> set (Fields s). \<forall>cf.
           Readable field \<and> RepresentationFunc field = ConvertFuncToRepresentationFuncAdapter cf \<and>
           intVal (Name field) = None \<longrightarrow>
           raw (Name field) = Some (fst (cf ANil)))"
    using v
    by (auto simp: Field_ToRepresentation_def ConvertFuncToRepresentationFuncAdapter_def index_def)
  with r d v show ?thesis by blast
qed

theorem C10_keys_are_readable_names_witness:
  "ToRepresentation person_serializer [''name'' \<mapsto> AString ''John''] () =
     Inr [''id'' \<mapsto> ANil, ''name'' \<mapsto> AString ''John''] \<and>
   dom [''id'' \<mapsto> ANil, ''name'' \<mapsto> AString ''John'' :: unit any] =
     {Name field |k field. (k, field) \<in> set (Fields person_serializer) \<and> Readable field}"
proof -
  let ?iv = "[''name'' \<mapsto> AString ''John''] :: string \<rightharpoonup> unit any"
  have h: "\<forall>kf \<in> set (Fields person_serializer). \<not> representation_fails ?iv () kf"
    by (simp add: person_serializer_def representation_fails_def NewField_def
        Field_ToRepresentation_def ConvertFuncToRepresentationFuncAdapter_def
        ConvertPassThrough_def)
  have e: "ToRepresentation person_serializer ?iv () =
      Inr [''id'' \<mapsto> ANil, ''name'' \<mapsto> AString ''John'']"
    by (simp add: person_serializer_def ToRepresentation_def NewField_def
        Field_ToRepresentation_def ConvertFuncToRepresentationFuncAdapter_def
        ConvertPassThrough_def index_def)
  from C10_keys_are_readable_names[OF h] obtain raw where
    r: "ToRepresentation person_serializer ?iv () = Inr raw"
    and d: "dom raw = {Name field |k field. (k, field) \<in> set (Fields person_serializer) \<and> Readable field}"
    by blast
  from r e have "raw = [''id'' \<mapsto> ANil, ''name'' \<mapsto> AString ''John'']" by simp
  with d e show ?thesis by simp
qed

section \<open>Properties of the conversions\<close>

text \<open>
  Claim C4. For a field whose two functions are the adapters of the pass-through
  conversion, and a value \<open>x\<close> supplied under the field's name, the conversion to the
  internal value returns a value without error, and the conversion to the representation
  of any internal value that holds it under the field's name returns \<open>x\<close>.
\<close>

theorem C4_pass_through_round_trip:
  assumes "InternalValueFunc f = ConvertFuncToInternalValueFuncAdapter ConvertPassThrough"
    and "RepresentationFunc f = ConvertFuncToRepresentationFuncAdapter ConvertPassThrough"
    and "reprModel (Name f) = Some x"
  shows "\<exists>v. Field_ToInternalValue f reprModel ctx = (v, None) \<and>
           (\<forall>intVal ctx'. intVal (Name f) = Some v \<longrightarrow>
              Field_ToRepresentation f intVal ctx' = (x, None))"
  using assms
  by (simp add: Field_ToInternalValue_def Field_ToRepresentation_def
      ConvertFuncToInternalValueFuncAdapter_def ConvertFuncToRepresentationFuncAdapter_def
      ConvertPassThrough_def index_def)

theorem C4_pass_through_round_trip_witness:
  "Field_ToInternalValue (NewField ''name'' :: (unit, unit) Field) [''name'' \<mapsto> AString ''John''] ()
     = (AString ''John'', None) \<and>
   Field_ToRepresentation (NewField ''name'' :: (unit, unit) Field) [''name'' \<mapsto> AString ''John''] ()
     = (AString ''John'', None)"
proof -
  let ?f = "NewField ''name'' :: (unit, unit) Field"
  have 1: "InternalValueFunc ?f = ConvertFuncToInternalValueFuncAdapter ConvertPassThrough"
    by (simp add: NewField_def)
  have 2: "RepresentationFunc ?f = ConvertFuncToRepresentationFuncAdapter ConvertPassThrough"
    by (simp add: NewField_def)
  have 3: "[''name'' \<mapsto> AString ''John'' :: unit any] (Name ?f) = Some (AString ''John'')"
    by (simp add: NewField_def)
  from C4_pass_through_round_trip[of ?f "[''name'' \<mapsto> AString ''John'']" "AString ''John''" "()",
      OF 1 2 3] obtain v where
    a: "Field_ToInternalValue ?f [''name'' \<mapsto> AString ''John''] () = (v, None)"
    and b: "\<forall>intVal ctx'. intVal (Name ?f) = Some v \<longrightarrow>
              Field_ToRepresentation ?f intVal ctx' = (AString ''John'', None)"
    by blast
  have "Field_ToInternalValue ?f [''name'' \<mapsto> AString ''John''] () = (AString ''John'', None)"
    by (simp add: Field_ToInternalValue_def NewField_def ConvertFuncToInternalValueFuncAdapter_def
        ConvertPassThrough_def index_def)
  with a have v: "v = AString ''John''" by simp
  from b v 3 have "Field_ToRepresentation ?f [''name'' \<mapsto> AString ''John''] () = (AString ''John'', None)"
    by blast
  with a v show ?thesis by simp
qed



lemma getFieldSettings_range_panics:
  assumes "Tag_json field = fieldName"
    and "BehindNilPointer field \<or> \<not> Exported field \<or> IsInterface (FieldType field)"
  shows "\<exists>msg. getFieldSettings_range (field # rest) fieldName settings = Inl (Panic msg)"
  using assms by auto

text \<open>
  For an attribute type without \<^verbatim>\<open>UnmarshalText\<close> the conversion that
  \<^verbatim>\<open>DecodeFromStringOrPassthrough\<close> returns is the pass-through itself; for a name that
  is the tag of no visible field the process ends.
\<close>

lemma DecodeFromStringOrPassthrough_plain:
  assumes "getFieldSettings entity fieldName = Inr (Some settings)"
    and "\<not> isEncodingTextUnmarshaler settings"
  shows "DecodeFromStringOrPassthrough entity fieldName = Inr ConvertPassThrough"
proof -
  have "(\<lambda>v. case v of
             AString vStr \<Rightarrow>
               if isEncodingTextUnmarshaler settings then
                 (case UnmarshalText (itsType settings) (New (itsType settings)) vStr of
                    (fv, unmarshalErr) \<Rightarrow> (APtr fv, unmarshalErr))
               else ConvertPassThrough v
           | _ \<Rightarrow> ConvertPassThrough v) = ConvertPassThrough"
    using assms(2) by (intro ext) (simp split: any.splits)
  with assms(1) show ?thesis by (simp add: DecodeFromStringOrPassthrough_def)
qed

lemma DecodeFromStringOrPassthrough_missing:
  assumes "getFieldSettings entity fieldName = Inr None"
  shows "DecodeFromStringOrPassthrough entity fieldName =
           Inl (Fatal (could_not_find fieldName (ModelString entity)))"
  using assms by (simp add: DecodeFromStringOrPassthrough_def)



section \<open>Properties of the registry\<close>

lemma WithField_registered:
  assumes "map_of (Fields s) name = Some v"
  shows "snd (WithField m name updateFunc s) = None \<and>
         map_of (Fields (fst (WithField m name updateFunc s))) name = Some (updateFunc v)"
  using assms by (simp add: WithField_def map_of_replaced)

text \<open>
  Claim C9. \<^verbatim>\<open>WithField\<close> on a name that is not registered ends the process with the
  fatal message that names the field and the model, and the registry is as it was: the
  update function is not applied.
\<close>

theorem C9_unknown_field_is_fatal:
  assumes "map_of (Fields s) name = None"
  shows "WithField m name updateFunc s =
           (s, Some (Fatal (''Could not find field `'' @ name @ ''` on model `'' @ ModelString m
                            @ ''` when registering serializer field'')))"
  using assms by (simp add: WithField_def could_not_find_def)

theorem C9_unknown_field_is_fatal_witness:
  "map_of (Fields person_serializer) ''age'' = None \<and>
   WithField person_model ''age'' (\<lambda>f. f\<lparr>Writable := False\<rparr>) person_serializer =
     (person_serializer,
      Some (Fatal ''Could not find field `age` on model `main.Person` when registering serializer field''))"
proof -
  have h: "map_of (Fields person_serializer) ''age'' = None"
    by (simp add: person_serializer_def)
  from C9_unknown_field_is_fatal[OF h, of person_model "\<lambda>f. f\<lparr>Writable := False\<rparr>"] h
  show ?thesis by (simp add: person_model_def)
qed

section \<open>Properties of the registration\<close>





text \<open>
  A chaining detector over three children, and the loop of \<^verbatim>\<open>WithModelFields\<close> for
  detectors that report no error.
\<close>

lemma chaining_three:
  "chaining [a, b, c] passThrough field [] =
     ((if snd (a field) = None then fst (a field)
       else if snd (b field) = None then fst (b field)
       else if snd (c field) = None then fst (c field)
       else passThrough, None),
      (case snd (a field) of
         None \<Rightarrow> []
       | Some e1 \<Rightarrow>
           Error e1 #
           (case snd (b field) of
              None \<Rightarrow> []
            | Some e2 \<Rightarrow>
                Error e2 # (case snd (c field) of None \<Rightarrow> [] | Some e3 \<Rightarrow> [Error e3]))))"
  by (cases "a field"; cases "b field"; cases "c field") (auto split: option.splits)

lemma WithModelFields_range_registers:
  assumes "\<And>k. snd (fst (rd k)) = None" and "\<And>k. snd (fst (ivd k)) = None"
  shows "WithModelFields_range rd ivd m ks registered logs =
     (Inr (fold (\<lambda>k. store k (WithInternalValueFunc (fst (fst (ivd k)))
                              (WithRepresentationFunc (fst (fst (rd k))) (NewField k))))
             ks registered),
      logs @ concat (map (\<lambda>k. snd (rd k) @ snd (ivd k)) ks))"
proof (induction ks arbitrary: registered logs)
  case Nil
  show ?case by simp
next
  case (Cons a ks)
  obtain f1 l1 where r: "rd a = ((f1, None), l1)"
    using assms(1)[of a] by (cases "rd a") (auto simp: prod_eq_iff)
  obtain f2 l2 where i: "ivd a = ((f2, None), l2)"
    using assms(2)[of a] by (cases "ivd a") (auto simp: prod_eq_iff)
  show ?case by (simp add: r i Cons.IH)
qed

lemma chaining_three_function:
  "fst (chaining [a, b, c] passThrough field []) =
     (if snd (a field) = None then fst (a field)
      else if snd (b field) = None then fst (b field)
      else if snd (c field) = None then fst (c field)
      else passThrough, None)"
  unfolding chaining_three by simp


lemma WithModelFields_registers:
  fixes s :: "('t, 'c) ModelSerializer"
  shows "WithModelFields P m passedFields s =
     (Inr (s\<lparr>Fields :=
         fold (\<lambda>k. store k
            (WithInternalValueFunc
               (fst (fst (NewChainingToInternalValueDetector
                  [NewUsingGRFParsableToInternalValueProvider P m,
                   NewFromTypeMapperToInternalValueProvider P m (FieldTypeMapper s),
                   NewEncodingTextUnmarshalerToInternalValueProvider P m] k)))
               (WithRepresentationFunc
                  (fst (fst (NewChainingToRepresentationDetector
                     [NewUsingGRFRepresentableToRepresentationProvider P m,
                      NewFromTypeMapperToRepresentationProvider P m (FieldTypeMapper s),
                      NewEncodingTextMarshalerToRepresentationProvider P m] k)))
                  (NewField k))))
           passedFields []\<rparr>),
      concat (map (\<lambda>k.
          snd (NewChainingToRepresentationDetector
                 [NewUsingGRFRepresentableToRepresentationProvider P m,
                  NewFromTypeMapperToRepresentationProvider P m (FieldTypeMapper s),
                  NewEncodingTextMarshalerToRepresentationProvider P m] k)
          @ snd (NewChainingToInternalValueDetector
                 [NewUsingGRFParsableToInternalValueProvider P m,
                  NewFromTypeMapperToInternalValueProvider P m (FieldTypeMapper s),
                  NewEncodingTextUnmarshalerToInternalValueProvider P m] k))
        passedFields))"
proof -
  let ?rd = "NewChainingToRepresentationDetector
                 [NewUsingGRFRepresentableToRepresentationProvider P m,
                  NewFromTypeMapperToRepresentationProvider P m (FieldTypeMapper s),
                  NewEncodingTextMarshalerToRepresentationProvider P m]"
  let ?ivd = "NewChainingToInternalValueDetector
                 [NewUsingGRFParsableToInternalValueProvider P m,
                  NewFromTypeMapperToInternalValueProvider P m (FieldTypeMapper s),
                  NewEncodingTextUnmarshalerToInternalValueProvider P m]"
  have 1: "snd (fst (?rd k)) = None" for k
    unfolding NewChainingToRepresentationDetector_def chaining_three_function by simp
  have 2: "snd (fst (?ivd k)) = None" for k
    unfolding NewChainingToInternalValueDetector_def chaining_three_function by simp
  show ?thesis
    unfolding WithModelFields_def Let_def
    by (simp only: WithModelFields_range_registers[of ?rd ?ivd, OF 1 2] append_Nil
        prod.case sum.case)
qed



text \<open>
  The registries that the registration builds have every field under its own name, so
  the names of their fields are pairwise different.
\<close>

lemma registered_by_name_names:
  assumes "registered_by_name fs"
  shows "distinct (map (\<lambda>(k, field). Name field) fs)"
proof -
  from assms have eq: "map (\<lambda>(k, field). Name field) fs = map fst fs"
    by (induction fs) (auto simp: registered_by_name_def)
  from assms have "distinct (map fst fs)" by (simp add: registered_by_name_def)
  then show ?thesis unfolding eq .
qed

lemma store_registered_by_name:
  assumes "registered_by_name fs" and "Name field = k"
  shows "registered_by_name (store k field fs)"
proof (cases "k \<in> fst ` set fs")
  case True
  then have s: "store k field fs = map (\<lambda>(k', v'). (k', if k' = k then field else v')) fs"
    by (simp add: store_def)
  have eq: "map fst (map (\<lambda>(k', v'). (k', if k' = k then field else v')) fs) = map fst fs"
    by (induction fs) auto
  have la: "list_all (\<lambda>(k, field). Name field = k)
      (map (\<lambda>(k', v'). (k', if k' = k then field else v')) fs)"
    using assms by (induction fs) (auto simp: registered_by_name_def)
  from assms have d: "distinct (map fst fs)" by (simp add: registered_by_name_def)
  show ?thesis unfolding registered_by_name_def s eq using d la by (rule conjI)
next
  case False
  with assms show ?thesis by (auto simp: registered_by_name_def store_def)
qed

lemma WithNewField_registered_by_name:
  "registered_by_name (Fields s) \<Longrightarrow> registered_by_name (Fields (WithNewField field s))"
  by (simp add: WithNewField_def store_registered_by_name)

lemma fold_store_registered_by_name:
  assumes "registered_by_name fs" and "\<And>k. Name (g k) = k"
  shows "registered_by_name (fold (\<lambda>k. store k (g k)) ks fs)"
  using assms(1) by (induction ks arbitrary: fs) (auto simp: store_registered_by_name assms(2))

lemma WithModelFields_registered_by_name:
  fixes s :: "('t, 'c) ModelSerializer"
  assumes "fst (WithModelFields P m passedFields s) = Inr s'"
  shows "registered_by_name (Fields s')"
proof -
  let ?mk = "\<lambda>k. WithInternalValueFunc
               (fst (fst (NewChainingToInternalValueDetector
                  [NewUsingGRFParsableToInternalValueProvider P m,
                   NewFromTypeMapperToInternalValueProvider P m (FieldTypeMapper s),
                   NewEncodingTextUnmarshalerToInternalValueProvider P m] k)))
               (WithRepresentationFunc
                  (fst (fst (NewChainingToRepresentationDetector
                     [NewUsingGRFRepresentableToRepresentationProvider P m,
                      NewFromTypeMapperToRepresentationProvider P m (FieldTypeMapper s),
                      NewEncodingTextMarshalerToRepresentationProvider P m] k)))
                  (NewField k)) :: ('t, 'c) Field"
  have n: "Name (?mk k) = k" for k
    by (simp add: WithInternalValueFunc_def WithRepresentationFunc_def NewField_def)
  have e: "registered_by_name ([] :: ('t, 'c) Fields)"
    by (simp add: registered_by_name_def)
  from assms have "Fields s' = fold (\<lambda>k. store k (?mk k)) passedFields []"
    unfolding WithModelFields_registers by auto
  with fold_store_registered_by_name[OF e, of ?mk, OF n] show ?thesis by simp
qed

end
